theory Spec2Isabelle
  imports Complex_Main "HOL-Library.Word" "HOL-Library.Sublist"
begin

text \<open>
  A model of the client application of \<open>App.tsx\<close>: the access gate, the geocoder client, the
  AI narrator client with the cleaning of its response, the handlers of the map and of the
  upload, the result card and the rich text renderer. The second copy of the component among
  the sources (the one with a language toggle) has the same code in every function modelled
  here, apart from the length of the wait in the login handler and from reading a missing
  \<open>history\<close> or \<open>architecture\<close> as the empty string.

  Waiting and the order of events in time are not modelled: a handler is the list of the calls
  it makes (state setters, console, alert) for given answers of the network, and the state
  after the handler is the state after these calls.
\<close>

section \<open>JavaScript strings\<close>

text \<open>
  A JavaScript string is a sequence of UTF-16 code units. String literals of the source that
  are plain ASCII are written with \<open>lit\<close>; other characters are given by their code units.
\<close>

type_synonym jsstring = "16 word list"

definition lit :: "string \<Rightarrow> jsstring" where
  "lit = map of_char"

text \<open>
  \<open>s.replace(/p/g, r)\<close> for a pattern \<open>p\<close> that is a literal, non-empty text: the leftmost
  occurrence is replaced and the scan resumes behind it. (With an empty pattern, which the
  program never uses, the text is returned as it is.)
\<close>

function replace_g :: "jsstring \<Rightarrow> jsstring \<Rightarrow> jsstring \<Rightarrow> jsstring" where
  "replace_g p r [] = []"
| "replace_g p r (c # cs) =
     (if p \<noteq> [] \<and> prefix p (c # cs)
      then r @ replace_g p r (drop (length p) (c # cs))
      else c # replace_g p r cs)"
  by pat_completeness auto
termination
  by (relation "measure (\<lambda>(p, r, s). length s)") auto

text \<open>The line terminators and the white space of ECMAScript; \<open>trim\<close> removes both kinds.\<close>

definition is_line_terminator :: "16 word \<Rightarrow> bool" where
  "is_line_terminator c \<longleftrightarrow> c = 0x0A \<or> c = 0x0D \<or> c = 0x2028 \<or> c = 0x2029"

definition is_white_space :: "16 word \<Rightarrow> bool" where
  "is_white_space c \<longleftrightarrow>
     c = 0x09 \<or> c = 0x0B \<or> c = 0x0C \<or> c = 0x20 \<or> c = 0xA0 \<or> c = 0xFEFF \<or>
     c = 0x1680 \<or> (0x2000 \<le> c \<and> c \<le> 0x200A) \<or> c = 0x202F \<or> c = 0x205F \<or> c = 0x3000"

definition trimmable :: "16 word \<Rightarrow> bool" where
  "trimmable c \<longleftrightarrow> is_white_space c \<or> is_line_terminator c"

definition trim :: "jsstring \<Rightarrow> jsstring" where
  "trim s = rev (dropWhile trimmable (rev (dropWhile trimmable s)))"

text \<open>\<open>s.includes(p)\<close>, \<open>s.startsWith(p)\<close> and \<open>s.endsWith(p)\<close>.\<close>

fun includes_str :: "jsstring \<Rightarrow> jsstring \<Rightarrow> bool" where
  "includes_str [] p = (p = [])"
| "includes_str (c # cs) p = (prefix p (c # cs) \<or> includes_str cs p)"

definition startsWith :: "jsstring \<Rightarrow> jsstring \<Rightarrow> bool" where
  "startsWith s p = prefix p s"

definition endsWith :: "jsstring \<Rightarrow> jsstring \<Rightarrow> bool" where
  "endsWith s p = suffix p s"

text \<open>
  \<open>s.slice(2, -2)\<close>: from index 2 up to two code units before the end; empty when the string
  has fewer than four code units.
\<close>

definition slice_2_m2 :: "jsstring \<Rightarrow> jsstring" where
  "slice_2_m2 s = take (length s - 2 - 2) (drop 2 s)"

text \<open>\<open>s.split(',')\<close>: the pieces between the separators; the empty string gives one empty piece.\<close>

fun split_on :: "16 word \<Rightarrow> jsstring \<Rightarrow> jsstring list" where
  "split_on sep [] = [[]]"
| "split_on sep (c # cs) =
     (case split_on sep cs of
        [] \<Rightarrow> (if c = sep then [[], []] else [[c]])
      | piece # pieces \<Rightarrow>
          (if c = sep then [] # piece # pieces else (c # piece) # pieces))"

section \<open>Cleaning the text of the AI response\<close>

text \<open>
  The source, in \<open>generateAIContent\<close>:
  \<^verbatim>\<open>const cleanJson = text.replace(/```json/g, '').replace(/```/g, '').trim();\<close>
\<close>

definition cleanJson :: "jsstring \<Rightarrow> jsstring" where
  "cleanJson text = trim (replace_g (lit ''```'') [] (replace_g (lit ''```json'') [] text))"

text \<open>A text between an opening fence marker and the closing marker.\<close>

definition fenced :: "jsstring \<Rightarrow> jsstring \<Rightarrow> jsstring" where
  "fenced opener t = opener @ t @ lit ''```''"

section \<open>Values read from the network\<close>

text \<open>
  What \<open>response.json()\<close> and axios hand to the program: a JSON value. A value of the
  program is such a value or \<open>undefined\<close>, which is \<open>None\<close>. An object is the list of its own
  properties, one entry for each name.
\<close>

datatype json =
    JNull
  | JBool bool
  | JNum real
  | JStr jsstring
  | JArr "json list"
  | JObj "(jsstring \<times> json) list"

text \<open>The values that \<open>!v\<close>, \<open>v || w\<close> and \<open>v && w\<close> take for true. (JSON has no NaN.)\<close>

fun truthy :: "json option \<Rightarrow> bool" where
  "truthy None = False"
| "truthy (Some JNull) = False"
| "truthy (Some (JBool b)) = b"
| "truthy (Some (JNum n)) = (n \<noteq> 0)"
| "truthy (Some (JStr s)) = (s \<noteq> [])"
| "truthy (Some (JArr xs)) = True"
| "truthy (Some (JObj kvs)) = True"

text \<open>\<open>v || w\<close>\<close>

definition or_else :: "json option \<Rightarrow> json option \<Rightarrow> json option" where
  "or_else v w = (if truthy v then v else w)"

text \<open>
  \<open>v.name\<close> on a value that is neither \<open>null\<close> nor \<open>undefined\<close>, for the property names the
  program reads (\<open>error\<close>, \<open>message\<close>, \<open>candidates\<close>, \<open>content\<close>, \<open>parts\<close>, \<open>text\<close>,
  \<open>display_name\<close>): only an object can have such a property.
\<close>

fun property :: "json \<Rightarrow> jsstring \<Rightarrow> json option" where
  "property (JObj kvs) name = map_of kvs name"
| "property v name = None"

text \<open>
  \<open>v[0]\<close> on a value that is neither \<open>null\<close> nor \<open>undefined\<close>: the first element of an array,
  the first code unit of a string, the property \<open>0\<close> of an object.
\<close>

fun index0 :: "json \<Rightarrow> json option" where
  "index0 (JArr []) = None"
| "index0 (JArr (x # xs)) = Some x"
| "index0 (JStr []) = None"
| "index0 (JStr (c # cs)) = Some (JStr [c])"
| "index0 (JObj kvs) = map_of kvs (lit ''0'')"
| "index0 v = None"

text \<open>Optional chaining: \<open>v?.name\<close> and \<open>v?.[0]\<close> are \<open>undefined\<close> on \<open>null\<close> and \<open>undefined\<close>.\<close>

fun opt_property :: "json option \<Rightarrow> jsstring \<Rightarrow> json option" where
  "opt_property None name = None"
| "opt_property (Some JNull) name = None"
| "opt_property (Some v) name = property v name"

fun opt_index0 :: "json option \<Rightarrow> json option" where
  "opt_index0 None = None"
| "opt_index0 (Some JNull) = None"
| "opt_index0 (Some v) = index0 v"

section \<open>The data of the application\<close>

text \<open>The interface \<open>AIResponse\<close> of the source; a field declared with \<open>?\<close> is an option.\<close>

record timeline_entry =
  year :: jsstring
  event :: jsstring

record geographical_context =
  state :: jsstring
  mainRiver :: jsstring
  climate :: jsstring
  elevation :: jsstring

record traditional_arts =
  dance :: jsstring
  music :: jsstring
  craft :: jsstring

text \<open>
  The three lists of \<open>culturalPractices\<close> are read with \<open>?.map\<close> by the renderer, so they are
  options here although the interface declares them without \<open>?\<close>.
\<close>

record cultural_practices =
  regionalFestivals :: "jsstring list option"
  traditionalArts :: traditional_arts
  regionalCuisine :: "jsstring list option"
  localHandicrafts :: "jsstring list option"

record AIResponse =
  title :: jsstring
  location :: jsstring
  description :: jsstring
  history :: jsstring
  architecture :: jsstring
  vibe :: jsstring
  food :: jsstring
  funFact :: jsstring
  rating :: real
  isLocation :: bool
  fallbackMessage :: "jsstring option"
  importantTimeline :: "timeline_entry list option"
  geographicalContext :: "geographical_context option"
  culturalPractices :: "cultural_practices option"
  trivia :: "jsstring list option"
  nearbyPlaces :: "jsstring list option"

text \<open>
  What the JavaScript engine does and the program does not: \<open>JSON.parse\<close>, read at the type
  \<open>AIResponse | null\<close> that the program declares for its result (\<open>Inl\<close> is the message of the
  SyntaxError); the conversion of a value that is not a string to a string; the messages of the
  TypeErrors that the engine raises.
\<close>

datatype type_error = ReadOfNull jsstring | NotAFunction jsstring

record js_engine =
  JSON_parse :: "jsstring \<Rightarrow> jsstring + AIResponse option"
  ToString :: "json \<Rightarrow> jsstring"
  TypeError_message :: "type_error \<Rightarrow> jsstring"

text \<open>\<open>v.name\<close>, which throws a TypeError when \<open>v\<close> is \<open>null\<close>. The error is its message.\<close>

definition read_member :: "js_engine \<Rightarrow> json \<Rightarrow> jsstring \<Rightarrow> jsstring + json option" where
  "read_member engine v name =
     (if v = JNull then Inl (TypeError_message engine (ReadOfNull name))
      else Inr (property v name))"

text \<open>The message of \<open>new Error(v)\<close>.\<close>

fun Error_message :: "js_engine \<Rightarrow> json option \<Rightarrow> jsstring" where
  "Error_message engine None = []"
| "Error_message engine (Some (JStr s)) = s"
| "Error_message engine (Some v) = ToString engine v"

text \<open>The state of the component \<open>App\<close>, one field for each \<open>useState\<close>.\<close>

record latlng =
  lat :: real
  lng :: real

record app_state =
  isAuthenticated :: bool
  position :: "latlng option"
  address :: json
  loading :: bool
  aiData :: "AIResponse option"
  previewImage :: "jsstring option"

text \<open>
  What a handler does, in the order in which it does it: calls of the state setters, of the
  console and of \<open>alert\<close>.
\<close>

datatype logged =
    LoggedJson json
  | LoggedValue "json option"
  | LoggedBool bool
  | LoggedStringified json
  | LoggedError jsstring

datatype effect =
    SetIsAuthenticated bool
  | SetPosition "latlng option"
  | SetAddress json
  | SetLoading bool
  | SetAiData "AIResponse option"
  | SetPreviewImage "jsstring option"
  | ConsoleLog jsstring logged
  | ConsoleError jsstring logged
  | Alert jsstring

fun apply_effect :: "effect \<Rightarrow> app_state \<Rightarrow> app_state" where
  "apply_effect (SetIsAuthenticated b) s = s\<lparr>isAuthenticated := b\<rparr>"
| "apply_effect (SetPosition p) s = s\<lparr>position := p\<rparr>"
| "apply_effect (SetAddress a) s = s\<lparr>address := a\<rparr>"
| "apply_effect (SetLoading b) s = s\<lparr>loading := b\<rparr>"
| "apply_effect (SetAiData d) s = s\<lparr>aiData := d\<rparr>"
| "apply_effect (SetPreviewImage i) s = s\<lparr>previewImage := i\<rparr>"
| "apply_effect (ConsoleLog label v) s = s"
| "apply_effect (ConsoleError label v) s = s"
| "apply_effect (Alert message) s = s"

definition run :: "effect list \<Rightarrow> app_state \<Rightarrow> app_state" where
  "run effects s = fold apply_effect effects s"

definition alerts :: "effect list \<Rightarrow> jsstring list" where
  "alerts effects = concat (map (\<lambda>e. case e of Alert message \<Rightarrow> [message] | _ \<Rightarrow> []) effects)"

section \<open>The access gate\<close>

text \<open>
  \<^verbatim>\<open>const APP_PASSWORD = import.meta.env.VITE_APP_PASSWORD || "AmbujAI";\<close>
  The environment variable is a string or is not set.
\<close>

definition APP_PASSWORD :: "jsstring option \<Rightarrow> jsstring" where
  "APP_PASSWORD env =
     (case env of
        None \<Rightarrow> lit ''AmbujAI''
      | Some v \<Rightarrow> if v = [] then lit ''AmbujAI'' else v)"

text \<open>
  The state of the component \<open>LoginScreen\<close>: \<open>pass\<close>, \<open>error\<close> and its own \<open>loading\<close> flag,
  here \<open>login_loading\<close>.
\<close>

record login_state =
  pass :: jsstring
  error :: bool
  login_loading :: bool

datatype login_effect = LoginSetLoading bool | LoginSetError bool | OnLogin

text \<open>
  \<open>handleSubmit\<close> of \<open>LoginScreen\<close>, after the wait of one second:
  \<^verbatim>\<open>if (pass === APP_PASSWORD) { onLogin(); } else { setError(true); setLoading(false); }\<close>
\<close>

definition handleSubmit :: "jsstring option \<Rightarrow> login_state \<Rightarrow> login_effect list" where
  "handleSubmit env ls =
     LoginSetLoading True #
     (if pass ls = APP_PASSWORD env then [OnLogin]
      else [LoginSetError True, LoginSetLoading False])"

text \<open>\<open>App\<close> passes \<open>() => setIsAuthenticated(true)\<close> for \<open>onLogin\<close>.\<close>

fun apply_login_effect :: "login_effect \<Rightarrow> login_state \<times> app_state \<Rightarrow> login_state \<times> app_state" where
  "apply_login_effect (LoginSetLoading b) (ls, s) = (ls\<lparr>login_loading := b\<rparr>, s)"
| "apply_login_effect (LoginSetError b) (ls, s) = (ls\<lparr>error := b\<rparr>, s)"
| "apply_login_effect OnLogin (ls, s) = (ls, apply_effect (SetIsAuthenticated True) s)"

definition submit :: "jsstring option \<Rightarrow> login_state \<times> app_state \<Rightarrow> login_state \<times> app_state" where
  "submit env gate = fold apply_login_effect (handleSubmit env (fst gate)) gate"

text \<open>
  \<open>App\<close> renders the login screen while \<open>isAuthenticated\<close> is false, the main view afterwards;
  the login screen shows the line \<open>Invalid Access Code\<close> while \<open>error\<close> is true.
\<close>

datatype screen = LoginScreen | MainView

definition App_screen :: "app_state \<Rightarrow> screen" where
  "App_screen s = (if \<not> isAuthenticated s then LoginScreen else MainView)"

definition error_indicator :: "login_state \<Rightarrow> bool" where
  "error_indicator ls = error ls"

section \<open>The geocoder client\<close>

text \<open>
  What \<open>axios.get\<close> does with the request: it rejects (no answer, or a status that is not a
  success), or it resolves with the body in \<open>res.data\<close>.
\<close>

datatype axios_outcome = AxiosRejected | AxiosResolved json

text \<open>
  \<^verbatim>\<open>try { const res = await axios.get(...);
        return res.data.display_name || "Unknown Location"; }
  catch (error) { return "Selected Location"; }\<close>
  Reading \<open>display_name\<close> of \<open>null\<close> throws inside the \<open>try\<close>.
\<close>

fun fetchAddress :: "axios_outcome \<Rightarrow> json" where
  "fetchAddress AxiosRejected = JStr (lit ''Selected Location'')"
| "fetchAddress (AxiosResolved JNull) = JStr (lit ''Selected Location'')"
| "fetchAddress (AxiosResolved data) =
     (case property data (lit ''display_name'') of
        None \<Rightarrow> JStr (lit ''Unknown Location'')
      | Some name \<Rightarrow> if truthy (Some name) then name else JStr (lit ''Unknown Location''))"

section \<open>The AI narrator client\<close>

text \<open>
  The request that \<open>generateAIContent\<close> sends is made of its two arguments (the prompt, and the
  image when one is given and not empty) and of fixed text. What \<open>fetch\<close> and
  \<open>response.json()\<close> make of it: \<open>fetch\<close> rejects with an error, or resolves with a response
  whose body \<open>response.json()\<close> reads (\<open>Inr\<close>) or rejects (\<open>Inl\<close>, the message of the error).
\<close>

record ai_request =
  request_prompt :: json
  request_image :: "jsstring option"

record response =
  status :: nat
  statusText :: jsstring
  body :: "jsstring + json"

datatype fetch_outcome = FetchRejected jsstring | FetchResolved response

definition ok :: "response \<Rightarrow> bool" where
  "ok r \<longleftrightarrow> 200 \<le> status r \<and> status r \<le> 299"

definition build_request :: "json \<Rightarrow> jsstring option \<Rightarrow> ai_request" where
  "build_request prompt imageBase64 =
     \<lparr>request_prompt = prompt,
      request_image = (case imageBase64 of
                         None \<Rightarrow> None
                       | Some img \<Rightarrow> if img = [] then None else Some img)\<rparr>"

text \<open>\<^verbatim>\<open>apiData.candidates?.[0]?.content?.parts?.[0]?.text\<close>, from \<open>apiData.candidates\<close> on.\<close>

definition candidate_text :: "json option \<Rightarrow> json option" where
  "candidate_text candidates =
     opt_property
       (opt_index0 (opt_property (opt_property (opt_index0 candidates) (lit ''content'')) (lit ''parts'')))
       (lit ''text'')"

text \<open>
  The body of the \<open>try\<close> block behind the request: the calls it makes, and the message of the
  error it throws, if it throws.
\<close>

definition try_block :: "js_engine \<Rightarrow> fetch_outcome \<Rightarrow> effect list \<times> jsstring option" where
  "try_block engine outcome =
     (case outcome of
        FetchRejected message \<Rightarrow> ([], Some message)
      | FetchResolved response \<Rightarrow>
          (case body response of
             Inl message \<Rightarrow> ([], Some message)
           | Inr apiData \<Rightarrow>
               (let logs = [ConsoleLog (lit ''API Response:'') (LoggedJson apiData),
                            ConsoleLog (lit ''Response OK:'') (LoggedBool (ok response))]
                in if \<not> ok response then
                     (let logs = logs @ [ConsoleError (lit ''API Error Response:'') (LoggedJson apiData)]
                      in if status response = 503 then
                           (logs, Some (lit ''AI service is busy. Please wait a moment and try again.''))
                         else
                           (case read_member engine apiData (lit ''error'') of
                              Inl message \<Rightarrow> (logs, Some message)
                            | Inr err \<Rightarrow>
                                (logs, Some (Error_message engine
                                   (or_else (opt_property err (lit ''message''))
                                      (Some (JStr (statusText response))))))))
                   else
                     (case read_member engine apiData (lit ''candidates'') of
                        Inl message \<Rightarrow> (logs, Some message)
                      | Inr candidates \<Rightarrow>
                          (let text = candidate_text candidates;
                               logs = logs @ [ConsoleLog (lit ''Extracted text:'') (LoggedValue text)]
                           in if \<not> truthy text then
                                (logs @ [ConsoleError (lit ''Full API Response:'') (LoggedStringified apiData)],
                                 Some (lit ''Empty response from AI. Check console for details.''))
                              else
                                (case text of
                                   Some (JStr t) \<Rightarrow>
                                     (case JSON_parse engine (cleanJson t) of
                                        Inl message \<Rightarrow> (logs, Some message)
                                      | Inr data \<Rightarrow> (logs @ [SetAiData data], None))
                                 | _ \<Rightarrow>
                                     (logs, Some (TypeError_message engine
                                        (NotAFunction (lit ''text.replace''))))))))))"

text \<open>The three alerts of the \<open>catch\<close> block.\<close>

definition busy_alert :: jsstring where
  "busy_alert = 0x23F3 # lit '' AI service is currently busy. Please wait 30 seconds and try again.''"

definition key_alert :: jsstring where
  "key_alert = [0xD83D, 0xDD11] @ lit '' Invalid API key. Please check your .env file.''"

definition error_alert :: "jsstring \<Rightarrow> jsstring" where
  "error_alert message =
     0x274C # lit '' Error: '' @ (if message = [] then lit ''Please try again.'' else message)"

definition alert_text :: "jsstring \<Rightarrow> jsstring" where
  "alert_text message =
     (if includes_str message (lit ''overloaded'') \<or> includes_str message (lit ''busy'')
      then busy_alert
      else if includes_str message (lit ''API key'') then key_alert
      else error_alert message)"

definition catch_block :: "jsstring \<Rightarrow> effect list" where
  "catch_block message =
     [ConsoleError (lit ''AI Error:'') (LoggedError message), Alert (alert_text message)]"

text \<open>
  \<open>generateAIContent\<close>: \<open>setLoading(true); setAiData(null);\<close>, the \<open>try\<close> block, the \<open>catch\<close>
  block when it threw, and \<open>setLoading(false)\<close> in the \<open>finally\<close> block. The argument \<open>network\<close>
  is what the network answers to a request.
\<close>

definition generateAIContent ::
  "js_engine \<Rightarrow> (ai_request \<Rightarrow> fetch_outcome) \<Rightarrow> json \<Rightarrow> jsstring option \<Rightarrow> effect list" where
  "generateAIContent engine network prompt imageBase64 =
     [SetLoading True, SetAiData None] @
     (case try_block engine (network (build_request prompt imageBase64)) of
        (effects, None) \<Rightarrow> effects
      | (effects, Some message) \<Rightarrow> effects @ catch_block message) @
     [SetLoading False]"

text \<open>The effects that leave the state alone, and those of the AI narrator client.\<close>

fun console_effect :: "effect \<Rightarrow> bool" where
  "console_effect (ConsoleLog label v) = True"
| "console_effect (ConsoleError label v) = True"
| "console_effect (Alert message) = True"
| "console_effect e = False"

fun ai_effect :: "effect \<Rightarrow> bool" where
  "ai_effect (SetLoading b) = True"
| "ai_effect (SetAiData d) = True"
| "ai_effect e = console_effect e"

text \<open>
  The failures of the AI call that the specification names: a status that is not a success;
  an extracted text that is empty or absent; a cleaned text that is not valid JSON.
  \<open>extracted_text\<close> is the text that the program extracts, when it gets as far.
\<close>

definition http_failure :: "fetch_outcome \<Rightarrow> bool" where
  "http_failure outcome = (case outcome of FetchRejected message \<Rightarrow> False | FetchResolved r \<Rightarrow> \<not> ok r)"

definition extracted_text :: "fetch_outcome \<Rightarrow> json option option" where
  "extracted_text outcome =
     (case outcome of
        FetchRejected message \<Rightarrow> None
      | FetchResolved r \<Rightarrow>
          if \<not> ok r then None
          else (case body r of
                  Inl message \<Rightarrow> None
                | Inr apiData \<Rightarrow>
                    if apiData = JNull then None
                    else Some (candidate_text (property apiData (lit ''candidates'')))))"

definition empty_text :: "fetch_outcome \<Rightarrow> bool" where
  "empty_text outcome = (case extracted_text outcome of None \<Rightarrow> False | Some text \<Rightarrow> \<not> truthy text)"

definition malformed_json :: "js_engine \<Rightarrow> fetch_outcome \<Rightarrow> bool" where
  "malformed_json engine outcome =
     (case extracted_text outcome of
        Some (Some (JStr t)) \<Rightarrow> t \<noteq> [] \<and> isl (JSON_parse engine (cleanJson t))
      | _ \<Rightarrow> False)"





section \<open>The handlers of the map and of the upload\<close>

text \<open>
  \<^verbatim>\<open>setPosition(latlng); setPreviewImage(null);
  const addr = await fetchAddress(latlng.lat, latlng.lng);
  setAddress(addr); await generateAIContent(addr);\<close>
  The argument \<open>geocoder\<close> is what the geocoding service answers for a point.
\<close>

definition handleMapClick ::
  "js_engine \<Rightarrow> (latlng \<Rightarrow> axios_outcome) \<Rightarrow> (ai_request \<Rightarrow> fetch_outcome) \<Rightarrow> latlng \<Rightarrow> effect list" where
  "handleMapClick engine geocoder network point =
     [SetPosition (Some point), SetPreviewImage None] @
     (let addr = fetchAddress (geocoder point)
      in SetAddress addr # generateAIContent engine network addr None)"

text \<open>
  The upload: no file was chosen, or the reader has finished with \<open>reader.result\<close>, the data
  URL of the file, or \<open>null\<close> when the file could not be read.
\<close>

datatype upload = NoFile | FileRead "jsstring option"

text \<open>\<^verbatim>\<open>reader.result?.toString().split(',')[1]\<close>\<close>

definition base64_of :: "jsstring option \<Rightarrow> jsstring option" where
  "base64_of result =
     (case result of
        None \<Rightarrow> None
      | Some url \<Rightarrow> (case split_on 0x2C url of piece # payload # pieces \<Rightarrow> Some payload | _ \<Rightarrow> None))"

definition handleImageUpload ::
  "js_engine \<Rightarrow> (ai_request \<Rightarrow> fetch_outcome) \<Rightarrow> upload \<Rightarrow> effect list" where
  "handleImageUpload engine network up =
     (case up of
        NoFile \<Rightarrow> []
      | FileRead result \<Rightarrow>
          (case base64_of result of
             None \<Rightarrow> []
           | Some base64 \<Rightarrow>
               if base64 = [] then []
               else [SetPreviewImage result, SetAddress (JStr (lit ''Analyzing image...'')),
                     SetPosition None] @
                    generateAIContent engine network (JStr []) (Some base64)))"

text \<open>
  What \<open>App\<close> shows of its state: the text under \<open>Target\<close> is \<open>{address}\<close>, the thumbnail is
  under \<open>previewImage &&\<close>, the marker of the map under \<open>position &&\<close>.
\<close>

definition Target_label :: "app_state \<Rightarrow> json" where
  "Target_label s = address s"

definition preview_shown :: "app_state \<Rightarrow> bool" where
  "preview_shown s = (case previewImage s of None \<Rightarrow> False | Some url \<Rightarrow> url \<noteq> [])"

definition marker_shown :: "app_state \<Rightarrow> bool" where
  "marker_shown s = (position s \<noteq> None)"

section \<open>The rich text renderer\<close>

text \<open>
  \<open>RichText\<close> splits its content with \<^verbatim>\<open>content.split(/(\*\*.*?\*\*)/g)\<close>. The pattern is two
  asterisks, the shortest run of code units that are not line terminators, and two asterisks.

  \<open>lazy_close s\<close> is the match of \<^verbatim>\<open>.*?\*\*\<close> at the start of \<open>s\<close>: what the dot took, and the
  text behind the closing asterisks. The closing asterisks are tried before the dot takes one
  more code unit.
\<close>

fun lazy_close :: "jsstring \<Rightarrow> (jsstring \<times> jsstring) option" where
  "lazy_close [] = None"
| "lazy_close (c # cs) =
     (if prefix (lit ''**'') (c # cs) then Some ([], drop 2 (c # cs))
      else if is_line_terminator c then None
      else (case lazy_close cs of
              None \<Rightarrow> None
            | Some (inner, rest) \<Rightarrow> Some (c # inner, rest)))"

text \<open>The match of the whole pattern at the start of \<open>s\<close>.\<close>

definition match_bold :: "jsstring \<Rightarrow> (jsstring \<times> jsstring) option" where
  "match_bold s = (if prefix (lit ''**'') s then lazy_close (drop 2 s) else None)"

text \<open>
  The leftmost match in \<open>s\<close>: the text in front of it, what the dot took, and the text behind it.
\<close>

fun first_match :: "jsstring \<Rightarrow> (jsstring \<times> jsstring \<times> jsstring) option" where
  "first_match [] = None"
| "first_match (c # cs) =
     (case match_bold (c # cs) of
        Some (inner, rest) \<Rightarrow> Some ([], inner, rest)
      | None \<Rightarrow>
          (case first_match cs of
             None \<Rightarrow> None
           | Some (front, inner, rest) \<Rightarrow> Some (c # front, inner, rest)))"

text \<open>
  The array that \<open>split\<close> returns holds, in turn, the text between two matches and the text
  that the group of the pattern captured, which is the whole match. \<open>tokens\<close> is this array
  with each element marked as the one or the other.
\<close>

datatype token = Between jsstring | Captured jsstring

fun token_text :: "token \<Rightarrow> jsstring" where
  "token_text (Between s) = s"
| "token_text (Captured s) = s"

function tokens :: "jsstring \<Rightarrow> token list" where
  "tokens s =
     (case first_match s of
        None \<Rightarrow> [Between s]
      | Some (front, inner, rest) \<Rightarrow>
          Between front # Captured (lit ''**'' @ inner @ lit ''**'') # tokens rest)"
  by pat_completeness auto

lemma lazy_close_parts: "lazy_close s = Some (inner, rest) \<Longrightarrow> s = inner @ lit ''**'' @ rest"
proof (induction s arbitrary: inner)
  case Nil
  then show ?case by simp
next
  case (Cons c cs)
  show ?case
  proof (cases "prefix (lit ''**'') (c # cs)")
    case True
    with Cons.prems have "inner = []" "rest = drop 2 (c # cs)" by simp_all
    moreover from True have "c # cs = lit ''**'' @ drop 2 (c # cs)"
      by (auto simp: prefix_def lit_def)
    ultimately show ?thesis by simp
  next
    case False
    with Cons.prems obtain inner' where "lazy_close cs = Some (inner', rest)" "inner = c # inner'"
      by (auto split: if_splits option.splits)
    with Cons.IH show ?thesis by simp
  qed
qed

lemma match_bold_parts:
  "match_bold s = Some (inner, rest) \<Longrightarrow> s = lit ''**'' @ inner @ lit ''**'' @ rest"
proof -
  assume a: "match_bold s = Some (inner, rest)"
  then have p: "prefix (lit ''**'') s" and "lazy_close (drop 2 s) = Some (inner, rest)"
    by (simp_all add: match_bold_def split: if_splits)
  then have "drop 2 s = inner @ lit ''**'' @ rest" by (simp add: lazy_close_parts)
  moreover from p have "s = lit ''**'' @ drop 2 s" by (auto simp: prefix_def lit_def)
  ultimately show ?thesis by simp
qed

lemma first_match_parts:
  "first_match s = Some (front, inner, rest) \<Longrightarrow>
   s = front @ lit ''**'' @ inner @ lit ''**'' @ rest"
proof (induction s arbitrary: front)
  case Nil
  then show ?case by simp
next
  case (Cons c cs)
  show ?case
  proof (cases "match_bold (c # cs)")
    case (Some m)
    with Cons.prems have "front = []" "match_bold (c # cs) = Some (inner, rest)"
      by (auto split: prod.splits)
    then show ?thesis by (simp add: match_bold_parts [symmetric])
  next
    case None
    with Cons.prems obtain front' where
      "first_match cs = Some (front', inner, rest)" "front = c # front'"
      by (auto split: option.splits)
    with Cons.IH show ?thesis by simp
  qed
qed

termination tokens
proof (relation "measure length")
  fix s x2 front y inner rest
  assume "first_match s = Some x2" "(front, y) = x2" "(inner, rest) = y"
  then have "first_match s = Some (front, inner, rest)" by simp
  then have "s = front @ lit ''**'' @ inner @ lit ''**'' @ rest" by (rule first_match_parts)
  then have "length s = length front + length inner + length rest + 4"
    by (simp add: lit_def)
  then show "(rest, s) \<in> measure length" by simp
qed simp

declare tokens.simps [simp del]

definition split_bold :: "jsstring \<Rightarrow> jsstring list" where
  "split_bold content = map token_text (tokens content)"

text \<open>
  What \<open>RichText\<close> makes of a part: a bold span of \<open>part.slice(2, -2)\<close> when the part starts
  and ends with two asterisks, the part itself otherwise.
\<close>

datatype rich = BoldSpan jsstring | PlainText jsstring

definition render_part :: "jsstring \<Rightarrow> rich" where
  "render_part part =
     (if startsWith part (lit ''**'') \<and> endsWith part (lit ''**'')
      then BoldSpan (slice_2_m2 part)
      else PlainText part)"

definition RichText :: "jsstring \<Rightarrow> rich list" where
  "RichText content = map render_part (split_bold content)"

fun rich_text :: "rich \<Rightarrow> jsstring" where
  "rich_text (BoldSpan s) = s"
| "rich_text (PlainText s) = s"

definition rendered_text :: "jsstring \<Rightarrow> jsstring" where
  "rendered_text content = concat (map rich_text (RichText content))"

text \<open>
  In the words of the claim about \<open>RichText\<close>: the content with the two delimiters of every
  matched fragment removed.
\<close>

function strip_delimiters :: "jsstring \<Rightarrow> jsstring" where
  "strip_delimiters s =
     (case first_match s of
        None \<Rightarrow> s
      | Some (front, inner, rest) \<Rightarrow> front @ inner @ strip_delimiters rest)"
  by pat_completeness auto
termination
proof (relation "measure length")
  fix s x2 front y inner rest
  assume "first_match s = Some x2" "(front, y) = x2" "(inner, rest) = y"
  then have "first_match s = Some (front, inner, rest)" by simp
  then have "s = front @ lit ''**'' @ inner @ lit ''**'' @ rest" by (rule first_match_parts)
  then have "length s = length front + length inner + length rest + 4"
    by (simp add: lit_def)
  then show "(rest, s) \<in> measure length" by simp
qed simp

declare strip_delimiters.simps [simp del]

section \<open>The result card\<close>

datatype panel =
    Header jsstring real jsstring jsstring
  | Overview "rich list"
  | GeographicalContext jsstring jsstring jsstring jsstring
  | HistoricalSignificance "rich list" "(jsstring \<times> jsstring) list option"
  | ArchitectureDesign "rich list"
  | CulturalTapestry "jsstring list" "jsstring list" "jsstring list"
  | NearbyAttractions "jsstring list"
  | DidYouKnow "jsstring list"
  | Footer

datatype view =
    AnalyzingLocation
  | BeginExploration
  | AnalysisFailed jsstring
  | Narrative "panel list"

text \<open>\<open>s || 'N/A'\<close> and \<open>xs?.map(...)\<close>\<close>

definition or_NA :: "jsstring \<Rightarrow> jsstring" where
  "or_NA s = (if s = [] then lit ''N/A'' else s)"

definition opt_items :: "jsstring list option \<Rightarrow> jsstring list" where
  "opt_items xs = (case xs of None \<Rightarrow> [] | Some items \<Rightarrow> items)"

definition default_fallback :: jsstring where
  "default_fallback = lit ''This doesn't appear to be a recognizable location. Please try again.''"

text \<open>The panels of a response that is a location, from top to bottom.\<close>

definition narrative_panels :: "AIResponse \<Rightarrow> panel list" where
  "narrative_panels d =
     [Header (location d) (rating d) (title d) (vibe d),
      Overview (RichText (description d))] @
     (case geographicalContext d of
        None \<Rightarrow> []
      | Some g \<Rightarrow> [GeographicalContext (or_NA (state g)) (or_NA (climate g))
                     (or_NA (mainRiver g)) (or_NA (elevation g))]) @
     [HistoricalSignificance (RichText (history d))
        (map_option (map (\<lambda>item. (year item, event item))) (importantTimeline d)),
      ArchitectureDesign (RichText (architecture d))] @
     (case culturalPractices d of
        None \<Rightarrow> []
      | Some c \<Rightarrow> [CulturalTapestry (opt_items (regionalFestivals c))
                     (opt_items (regionalCuisine c)) (opt_items (localHandicrafts c))]) @
     (case nearbyPlaces d of None \<Rightarrow> [] | Some places \<Rightarrow> [NearbyAttractions places]) @
     (case trivia d of None \<Rightarrow> [] | Some facts \<Rightarrow> [DidYouKnow facts]) @
     [Footer]"

text \<open>
  \<open>ResultCard\<close>: the spinner while loading, the invitation when there is no data, the failure
  panel with \<^verbatim>\<open>data.fallbackMessage || "This doesn't appear ..."\<close> when \<open>isLocation\<close> is false,
  the narrative panels otherwise.
\<close>

definition ResultCard :: "AIResponse option \<Rightarrow> bool \<Rightarrow> view" where
  "ResultCard data is_loading =
     (if is_loading then AnalyzingLocation
      else case data of
        None \<Rightarrow> BeginExploration
      | Some d \<Rightarrow>
          if \<not> isLocation d then
            AnalysisFailed (case fallbackMessage d of
                              None \<Rightarrow> default_fallback
                            | Some message \<Rightarrow> if message = [] then default_fallback else message)
          else Narrative (narrative_panels d))"

definition failure_panel :: "view \<Rightarrow> jsstring option" where
  "failure_panel v = (case v of AnalysisFailed message \<Rightarrow> Some message | _ \<Rightarrow> None)"

definition shown_panels :: "view \<Rightarrow> panel list" where
  "shown_panels v = (case v of Narrative panels \<Rightarrow> panels | _ \<Rightarrow> [])"

section \<open>Initial states and sample data\<close>

text \<open>The initial values of the \<open>useState\<close> calls of \<open>App\<close> and of \<open>LoginScreen\<close>.\<close>

definition initial_app :: app_state where
  "initial_app =
     \<lparr>isAuthenticated = False, position = None, address = JStr (lit ''Select location...''),
      loading = False, aiData = None, previewImage = None\<rparr>"

definition initial_login :: login_state where
  "initial_login = \<lparr>pass = [], error = False, login_loading = False\<rparr>"

text \<open>A response that is not a location, with a fallback message that is given.\<close>

definition unrecognised :: "jsstring option \<Rightarrow> AIResponse" where
  "unrecognised message =
     \<lparr>title = [], location = [], description = [], history = [], architecture = [],
      vibe = [], food = [], funFact = [], rating = 0, isLocation = False,
      fallbackMessage = message, importantTimeline = None, geographicalContext = None,
      culturalPractices = None, trivia = None, nearbyPlaces = None\<rparr>"

text \<open>
  An engine for the examples: its \<open>JSON.parse\<close> reads the text \<open>null\<close> and rejects every
  other text.
\<close>

definition sample_engine :: js_engine where
  "sample_engine =
     \<lparr>JSON_parse = (\<lambda>t. if t = lit ''null'' then Inr None else Inl (lit ''Unexpected token'')),
      ToString = (\<lambda>v. lit ''[object Object]''),
      TypeError_message = (\<lambda>e. lit ''TypeError'')\<rparr>"

section \<open>Facts about global replacement and trimming\<close>

lemma replace_g_unfold:
  "s \<noteq> [] \<Longrightarrow> replace_g p r s =
     (if p \<noteq> [] \<and> prefix p s then r @ replace_g p r (drop (length p) s)
      else hd s # replace_g p r (tl s))"
  by (cases s) simp_all

lemma replace_g_opener: "p \<noteq> [] \<Longrightarrow> replace_g p r (p @ t) = r @ replace_g p r t"
  by (subst replace_g_unfold) simp_all

lemma replace_g_skip: "\<not> prefix p (c # s) \<Longrightarrow> replace_g p r (c # s) = c # replace_g p r s"
  by simp

text \<open>
  A match cannot straddle the end of \<open>t\<close> when no beginning of the appended text \<open>w\<close> is an
  ending of the pattern.
\<close>

lemma prefix_append_clash:
  assumes clash: "\<And>us. us \<noteq> [] \<Longrightarrow> prefix us w \<Longrightarrow> \<not> suffix us p"
  shows "prefix p (t @ w) \<longleftrightarrow> prefix p t"
proof
  assume a: "prefix p (t @ w)"
  show "prefix p t"
  proof (rule ccontr)
    assume "\<not> prefix p t"
    with a obtain us where us: "p = t @ us" "prefix us w" "us \<noteq> []"
      by (auto simp: prefix_append)
    from us(1) have "suffix us p" by (simp add: suffix_def)
    with clash [OF us(3) us(2)] show False by simp
  qed
next
  assume "prefix p t"
  then show "prefix p (t @ w)" by (rule prefix_prefix)
qed

lemma replace_g_append:
  assumes clash: "\<And>us. us \<noteq> [] \<Longrightarrow> prefix us w \<Longrightarrow> \<not> suffix us p"
  shows "replace_g p r (t @ w) = replace_g p r t @ replace_g p r w"
proof (induction t rule: measure_induct_rule [where f = length])
  case (less t)
  show ?case
  proof (cases "t = []")
    case True
    then show ?thesis by simp
  next
    case ne: False
    have same: "prefix p (t @ w) \<longleftrightarrow> prefix p t"
      using clash by (rule prefix_append_clash)
    show ?thesis
    proof (cases "p \<noteq> [] \<and> prefix p t")
      case True
      then have len: "length p \<le> length t" by (simp add: prefix_length_le)
      from True ne have shorter: "length (drop (length p) t) < length t" by (cases p) auto
      have "replace_g p r (t @ w) = r @ replace_g p r (drop (length p) t @ w)"
        using True same ne len by (subst replace_g_unfold) simp_all
      also have "\<dots> = r @ replace_g p r (drop (length p) t) @ replace_g p r w"
        using less.IH [OF shorter] by simp
      also have "\<dots> = replace_g p r t @ replace_g p r w"
        using True ne by (subst (2) replace_g_unfold) simp_all
      finally show ?thesis .
    next
      case False
      from ne have shorter: "length (tl t) < length t" by (cases t) auto
      have "replace_g p r (t @ w) = hd t # replace_g p r (tl t @ w)"
        using False same ne by (subst replace_g_unfold) auto
      also have "\<dots> = hd t # replace_g p r (tl t) @ replace_g p r w"
        using less.IH [OF shorter] by simp
      also have "\<dots> = replace_g p r t @ replace_g p r w"
        using False ne by (subst (2) replace_g_unfold) auto
      finally show ?thesis .
    qed
  qed
qed

text \<open>Removing the closing fence from the end: what precedes it is scanned as it is alone.\<close>

lemma replace_g_fence_end:
  "replace_g (lit ''```'') [] (u @ lit ''```'') = replace_g (lit ''```'') [] u"
proof (induction u rule: measure_induct_rule [where f = length])
  case (less u)
  let ?F = "lit ''```''"
  have F: "?F = [96, 96, 96]" by (simp add: lit_def)
  show ?case
  proof (cases "u = []")
    case True
    then show ?thesis by (simp add: F)
  next
    case ne: False
    show ?thesis
    proof (cases "prefix ?F u")
      case True
      then have len: "length ?F \<le> length u" by (simp add: prefix_length_le)
      have shorter: "length (drop (length ?F) u) < length u" using ne by (simp add: F)
      from True have "prefix ?F (u @ ?F)" by (simp add: prefix_prefix)
      then have "replace_g ?F [] (u @ ?F) = replace_g ?F [] (drop (length ?F) u @ ?F)"
        using ne len by (subst replace_g_unfold) (simp_all add: F)
      also have "\<dots> = replace_g ?F [] (drop (length ?F) u)"
        using less.IH [OF shorter] by simp
      also have "\<dots> = replace_g ?F [] u"
        using True ne by (subst (2) replace_g_unfold) (simp_all add: F)
      finally show ?thesis .
    next
      case False
      show ?thesis
      proof (cases "prefix ?F (u @ ?F)")
        case True
        with False obtain us where "?F = u @ us" "us \<noteq> []"
          by (auto simp: prefix_append)
        with ne have "u = [96] \<or> u = [96, 96]"
          by (auto simp: F Cons_eq_append_conv)
        then show ?thesis by (auto simp: F)
      next
        case nomatch: False
        from ne have shorter: "length (tl u) < length u" by (cases u) auto
        have "replace_g ?F [] (u @ ?F) = hd u # replace_g ?F [] (tl u @ ?F)"
          using nomatch ne by (subst replace_g_unfold) auto
        also have "\<dots> = hd u # replace_g ?F [] (tl u)"
          using less.IH [OF shorter] by simp
        also have "\<dots> = replace_g ?F [] u"
          using False ne by (subst (2) replace_g_unfold) auto
        finally show ?thesis .
      qed
    qed
  qed
qed

text \<open>No beginning of the closing fence is an ending of a text whose last code unit is not a backtick.\<close>

lemma fence_clash:
  assumes "q \<noteq> []" "last q \<noteq> 96" "us \<noteq> []" "prefix us (lit ''```'')"
  shows "\<not> suffix us q"
proof
  assume "suffix us q"
  with assms(3) have "last q = last us" by (auto simp: suffix_def)
  moreover from assms(3,4) have "last us = 96"
    by (cases us) (auto simp: lit_def prefix_Cons)
  ultimately show False using assms(2) by simp
qed

lemma json_marker_append_fence:
  "replace_g (lit ''```json'') [] (t @ lit ''```'') = replace_g (lit ''```json'') [] t @ lit ''```''"
proof -
  have "replace_g (lit ''```json'') [] (t @ lit ''```'')
      = replace_g (lit ''```json'') [] t @ replace_g (lit ''```json'') [] (lit ''```'')"
    by (rule replace_g_append) (rule fence_clash, simp_all add: lit_def)
  also have "replace_g (lit ''```json'') [] (lit ''```'') = lit ''```''"
    by (simp add: lit_def)
  finally show ?thesis .
qed

lemma cleanJson_json_fence: "cleanJson (fenced (lit ''```json'') t) = cleanJson t"
proof -
  let ?J = "lit ''```json''" and ?F = "lit ''```''"
  have nz: "?J \<noteq> []" by (simp add: lit_def)
  have "replace_g ?J [] (?J @ t @ ?F) = replace_g ?J [] (t @ ?F)"
    using replace_g_opener [OF nz, of "[]" "t @ ?F"] by simp
  also have "\<dots> = replace_g ?J [] t @ ?F"
    by (rule json_marker_append_fence)
  finally show ?thesis
    unfolding cleanJson_def fenced_def by (simp only: replace_g_fence_end)
qed

lemma json_marker_skips_fence:
  assumes "\<not> prefix (lit ''json'') x" "\<not> prefix (lit ''`json'') x" "\<not> prefix (lit ''``json'') x"
  shows "replace_g (lit ''```json'') [] (lit ''```'' @ x) = lit ''```'' @ replace_g (lit ''```json'') [] x"
  using assms by (simp add: lit_def)

lemma cleanJson_plain_fence:
  assumes "\<not> prefix (lit ''json'') t" "\<not> prefix (lit ''`json'') t" "\<not> prefix (lit ''``json'') t"
  shows "cleanJson (fenced (lit ''```'') t) = cleanJson t"
proof -
  let ?J = "lit ''```json''" and ?F = "lit ''```''"
  have nz: "?F \<noteq> []" by (simp add: lit_def)
  have n1: "\<not> prefix (lit ''json'') (t @ ?F)"
    using assms(1) by (subst prefix_append_clash) (rule fence_clash, simp_all add: lit_def)
  have n2: "\<not> prefix (lit ''`json'') (t @ ?F)"
    using assms(2) by (subst prefix_append_clash) (rule fence_clash, simp_all add: lit_def)
  have n3: "\<not> prefix (lit ''``json'') (t @ ?F)"
    using assms(3) by (subst prefix_append_clash) (rule fence_clash, simp_all add: lit_def)
  have "replace_g ?J [] (?F @ t @ ?F) = ?F @ replace_g ?J [] (t @ ?F)"
    using n1 n2 n3 by (rule json_marker_skips_fence)
  also have "\<dots> = ?F @ (replace_g ?J [] t @ ?F)"
    by (simp only: json_marker_append_fence)
  finally have "replace_g ?F [] (replace_g ?J [] (?F @ t @ ?F))
      = replace_g ?F [] (?F @ (replace_g ?J [] t @ ?F))"
    by simp
  also have "\<dots> = replace_g ?F [] (replace_g ?J [] t @ ?F)"
    using replace_g_opener [OF nz, of "[]" "replace_g ?J [] t @ ?F"] by simp
  also have "\<dots> = replace_g ?F [] (replace_g ?J [] t)"
    by (rule replace_g_fence_end)
  finally show ?thesis
    by (simp add: cleanJson_def fenced_def)
qed

text \<open>White space around a text does not change what the cleaning step makes of it.\<close>

lemma replace_g_foreign_prefix:
  "\<forall>c\<in>set w. c \<notin> set p \<Longrightarrow> replace_g p r (w @ x) = w @ replace_g p r x"
proof (induction w)
  case Nil
  show ?case by simp
next
  case (Cons c w)
  from Cons.prems have "replace_g p r (c # w @ x) = c # replace_g p r (w @ x)"
    by (cases p) auto
  with Cons show ?case by simp
qed

lemma replace_g_foreign_suffix:
  assumes "\<forall>c\<in>set w. c \<notin> set p"
  shows "replace_g p r (t @ w) = replace_g p r t @ w"
proof -
  have "replace_g p r (t @ w) = replace_g p r t @ replace_g p r w"
  proof (rule replace_g_append)
    fix us :: jsstring
    assume us: "us \<noteq> []" "prefix us w"
    show "\<not> suffix us p"
    proof
      assume "suffix us p"
      then have "set us \<subseteq> set p" by (rule set_mono_suffix)
      moreover from us(2) have "set us \<subseteq> set w" by (rule set_mono_prefix)
      moreover from us(1) have "hd us \<in> set us" by simp
      ultimately show False using assms by blast
    qed
  qed
  moreover have "replace_g p r w = w"
    using replace_g_foreign_prefix [OF assms, of r "[]"] by simp
  ultimately show ?thesis by simp
qed

lemma trim_padding:
  assumes w1: "\<forall>c\<in>set w1. trimmable c" and w2: "\<forall>c\<in>set w2. trimmable c"
  shows "trim (w1 @ x @ w2) = trim x"
proof -
  have front: "dropWhile trimmable (w1 @ x @ w2) = dropWhile trimmable (x @ w2)"
    using w1 by (simp add: dropWhile_append2)
  show ?thesis
  proof (cases "\<forall>c\<in>set x. trimmable c")
    case True
    with w2 have "\<forall>c\<in>set (x @ w2). trimmable c"
      by auto
    then have "dropWhile trimmable (x @ w2) = []"
      by (simp only: dropWhile_eq_Nil_conv)
    moreover from True have "dropWhile trimmable x = []"
      by (simp only: dropWhile_eq_Nil_conv)
    ultimately show ?thesis by (simp only: trim_def front)
  next
    case False
    then have "dropWhile trimmable (x @ w2) = dropWhile trimmable x @ w2"
      by (auto simp: dropWhile_append1)
    moreover have "dropWhile trimmable (rev w2 @ rev (dropWhile trimmable x))
        = dropWhile trimmable (rev (dropWhile trimmable x))"
      by (rule dropWhile_append2) (use w2 in auto)
    ultimately show ?thesis using front by (simp add: trim_def)
  qed
qed

lemma trimmable_not_marker:
  "trimmable c \<Longrightarrow> c \<notin> set (lit ''```json'')"
  by (auto simp: trimmable_def is_white_space_def is_line_terminator_def lit_def)

lemma cleanJson_padding:
  assumes w1: "\<forall>c\<in>set w1. trimmable c" and w2: "\<forall>c\<in>set w2. trimmable c"
  shows "cleanJson (w1 @ t @ w2) = cleanJson t"
proof -
  let ?J = "lit ''```json''" and ?F = "lit ''```''"
  have sub: "set ?F \<subseteq> set ?J" by (simp add: lit_def)
  have j1: "\<forall>c\<in>set w1. c \<notin> set ?J" and j2: "\<forall>c\<in>set w2. c \<notin> set ?J"
    using w1 w2 trimmable_not_marker by blast+
  with sub have f1: "\<forall>c\<in>set w1. c \<notin> set ?F" and f2: "\<forall>c\<in>set w2. c \<notin> set ?F"
    by blast+
  have "replace_g ?J [] (w1 @ t @ w2) = w1 @ replace_g ?J [] t @ w2"
    by (simp add: replace_g_foreign_prefix [OF j1] replace_g_foreign_suffix [OF j2])
  then have "replace_g ?F [] (replace_g ?J [] (w1 @ t @ w2))
      = w1 @ replace_g ?F [] (replace_g ?J [] t) @ w2"
    by (simp add: replace_g_foreign_prefix [OF f1] replace_g_foreign_suffix [OF f2])
  then show ?thesis
    by (simp add: cleanJson_def trim_padding [OF w1 w2])
qed

text \<open>
  Fence markers on lines of their own, as a model writes them: white space (at least a line
  break) separates each marker from the text.
\<close>

lemma cleanJson_fence_lines:
  assumes w1: "\<forall>c\<in>set w1. trimmable c" and w2: "\<forall>c\<in>set w2. trimmable c" and "w1 \<noteq> []"
  shows "cleanJson (fenced (lit ''```json'') (w1 @ t @ w2)) = cleanJson t"
    and "cleanJson (fenced (lit ''```'') (w1 @ t @ w2)) = cleanJson t"
proof -
  show "cleanJson (fenced (lit ''```json'') (w1 @ t @ w2)) = cleanJson t"
    by (simp only: cleanJson_json_fence cleanJson_padding [OF w1 w2])
  from \<open>w1 \<noteq> []\<close> obtain c w where c: "w1 = c # w" by (cases w1) auto
  with w1 have "c \<notin> set (lit ''```json'')" by (simp add: trimmable_not_marker)
  then have "\<not> prefix (lit ''json'') (w1 @ t @ w2)" "\<not> prefix (lit ''`json'') (w1 @ t @ w2)"
    "\<not> prefix (lit ''``json'') (w1 @ t @ w2)"
    using c by (auto simp: lit_def)
  then have "cleanJson (fenced (lit ''```'') (w1 @ t @ w2)) = cleanJson (w1 @ t @ w2)"
    by (rule cleanJson_plain_fence)
  then show "cleanJson (fenced (lit ''```'') (w1 @ t @ w2)) = cleanJson t"
    by (simp only: cleanJson_padding [OF w1 w2])
qed

section \<open>Facts about the access gate\<close>

lemma submit_match:
  "pass ls = APP_PASSWORD env \<Longrightarrow>
   submit env (ls, s) = (ls\<lparr>login_loading := True\<rparr>, s\<lparr>isAuthenticated := True\<rparr>)"
  by (simp add: submit_def handleSubmit_def)

lemma submit_mismatch:
  "pass ls \<noteq> APP_PASSWORD env \<Longrightarrow>
   submit env (ls, s) = (ls\<lparr>login_loading := False, error := True\<rparr>, s)"
  by (simp add: submit_def handleSubmit_def)

lemma APP_PASSWORD_default:
  "env = None \<or> env = Some [] \<Longrightarrow> APP_PASSWORD env = lit ''AmbujAI''"
  by (auto simp: APP_PASSWORD_def)

section \<open>Facts about the handlers\<close>

lemma run_Nil: "run [] s = s"
  by (simp add: run_def)

lemma run_Cons: "run (e # es) s = run es (apply_effect e s)"
  by (simp add: run_def)

lemma run_append: "run (es @ fs) s = run fs (run es s)"
  by (simp add: run_def)

lemma run_console: "\<forall>e\<in>set es. console_effect e \<Longrightarrow> run es s = s"
proof (induction es)
  case Nil
  show ?case by (simp add: run_Nil)
next
  case (Cons e es)
  then have "apply_effect e s = s" by (cases e) simp_all
  with Cons show ?case by (simp add: run_Cons)
qed

lemma run_ai_effects:
  assumes "\<forall>e\<in>set es. ai_effect e"
  shows "address (run es s) = address s \<and> position (run es s) = position s \<and>
         previewImage (run es s) = previewImage s \<and> isAuthenticated (run es s) = isAuthenticated s"
  using assms
proof (induction es arbitrary: s)
  case Nil
  show ?case by (simp add: run_Nil)
next
  case (Cons e es)
  from Cons.prems have "ai_effect e" by simp
  then have "address (apply_effect e s) = address s \<and> position (apply_effect e s) = position s \<and>
     previewImage (apply_effect e s) = previewImage s \<and>
     isAuthenticated (apply_effect e s) = isAuthenticated s"
    by (cases e) simp_all
  moreover from Cons have "address (run es (apply_effect e s)) = address (apply_effect e s) \<and>
     position (run es (apply_effect e s)) = position (apply_effect e s) \<and>
     previewImage (run es (apply_effect e s)) = previewImage (apply_effect e s) \<and>
     isAuthenticated (run es (apply_effect e s)) = isAuthenticated (apply_effect e s)"
    by simp
  ultimately show ?case by (simp add: run_Cons)
qed




text \<open>
  The \<open>try\<close> block: when it throws, it has only logged; when it does not, it has logged and
  then stored the parsed data.
\<close>

lemma try_block_thrown:
  "snd (try_block engine outcome) = Some message \<Longrightarrow>
   (\<forall>e\<in>set (fst (try_block engine outcome)). console_effect e) \<and>
   alerts (fst (try_block engine outcome)) = []"
  by (auto simp: try_block_def Let_def alerts_def
      split: fetch_outcome.splits sum.splits option.splits json.splits if_splits)

lemma try_block_returned:
  "snd (try_block engine outcome) = None \<Longrightarrow>
   \<exists>logs data. fst (try_block engine outcome) = logs @ [SetAiData data] \<and>
     (\<forall>e\<in>set logs. console_effect e) \<and> alerts logs = []"
  by (auto simp: try_block_def Let_def alerts_def
      split: fetch_outcome.splits sum.splits option.splits json.splits if_splits)

lemma catch_block_console: "\<forall>e\<in>set (catch_block message). console_effect e"
  by (simp add: catch_block_def)

lemma generateAIContent_thrown:
  assumes "snd (try_block engine (network (build_request prompt img))) = Some message"
  shows "generateAIContent engine network prompt img =
     [SetLoading True, SetAiData None] @
     fst (try_block engine (network (build_request prompt img))) @
     catch_block message @ [SetLoading False]"
  using assms
  by (cases "try_block engine (network (build_request prompt img))") (simp add: generateAIContent_def)

lemma generateAIContent_returned:
  assumes "snd (try_block engine (network (build_request prompt img))) = None"
  shows "generateAIContent engine network prompt img =
     [SetLoading True, SetAiData None] @
     fst (try_block engine (network (build_request prompt img))) @ [SetLoading False]"
  using assms
  by (cases "try_block engine (network (build_request prompt img))") (simp add: generateAIContent_def)

lemma generateAIContent_ai_effects:
  "\<forall>e\<in>set (generateAIContent engine network prompt img). ai_effect e"
proof (cases "snd (try_block engine (network (build_request prompt img)))")
  case None
  from try_block_returned [of engine "network (build_request prompt img)"] None
  obtain logs data where
    "fst (try_block engine (network (build_request prompt img))) = logs @ [SetAiData data]"
    "\<forall>e\<in>set logs. console_effect e"
    by blast
  moreover have "console_effect e \<Longrightarrow> ai_effect e" for e by (cases e) simp_all
  ultimately show ?thesis
    using None by (auto simp: generateAIContent_returned)
next
  case (Some message)
  have "console_effect e \<Longrightarrow> ai_effect e" for e by (cases e) simp_all
  with try_block_thrown [of engine "network (build_request prompt img)" message]
    catch_block_console [of message] Some
  show ?thesis
    by (auto simp: generateAIContent_thrown [of engine network prompt img message])
qed

lemma generateAIContent_final_loading:
  "\<not> loading (run (generateAIContent engine network prompt img) s)"
proof -
  obtain es where "generateAIContent engine network prompt img = es @ [SetLoading False]"
    by (cases "try_block engine (network (build_request prompt img))")
      (auto simp: generateAIContent_def split: option.splits)
  then show ?thesis by (simp add: run_append run_Cons run_Nil)
qed

lemma generateAIContent_thrown_data:
  assumes "snd (try_block engine (network (build_request prompt img))) = Some message"
  shows "aiData (run (generateAIContent engine network prompt img) s) = None"
proof -
  let ?logs = "fst (try_block engine (network (build_request prompt img)))"
  have "\<forall>e\<in>set (?logs @ catch_block message). console_effect e"
    using try_block_thrown [of engine "network (build_request prompt img)" message] assms
      catch_block_console [of message] by auto
  then have "run (?logs @ catch_block message) t = t" for t
    by (rule run_console)
  then have "run (?logs @ catch_block message @ [SetLoading False]) t = t\<lparr>loading := False\<rparr>" for t
    using run_append [of "?logs @ catch_block message" "[SetLoading False]" t]
    by (simp add: run_Cons run_Nil)
  then show ?thesis
    using assms
    by (simp add: generateAIContent_thrown [of engine network prompt img message] run_Cons)
qed


text \<open>Each of the three failures that the specification names makes the \<open>try\<close> block throw.\<close>

lemma named_failures_throw:
  assumes "http_failure outcome \<or> empty_text outcome \<or> malformed_json engine outcome"
  shows "snd (try_block engine outcome) \<noteq> None"
  using assms
  by (auto simp: http_failure_def empty_text_def malformed_json_def extracted_text_def
      try_block_def Let_def read_member_def
      split: fetch_outcome.splits sum.splits option.splits json.splits if_splits)


section \<open>Facts about the rich text renderer\<close>

lemma tokens_no_match: "first_match s = None \<Longrightarrow> tokens s = [Between s]"
  by (subst tokens.simps) simp

lemma tokens_match:
  "first_match s = Some (front, inner, rest) \<Longrightarrow>
   tokens s = Between front # Captured (lit ''**'' @ inner @ lit ''**'') # tokens rest"
  by (subst tokens.simps) simp

lemma strip_delimiters_no_match: "first_match s = None \<Longrightarrow> strip_delimiters s = s"
  by (subst strip_delimiters.simps) simp

lemma strip_delimiters_match:
  "first_match s = Some (front, inner, rest) \<Longrightarrow>
   strip_delimiters s = front @ inner @ strip_delimiters rest"
  by (subst strip_delimiters.simps) simp

text \<open>The parts of the split, put together, are the content.\<close>

lemma concat_tokens: "concat (map token_text (tokens s)) = s"
proof (induction s rule: tokens.induct)
  case (1 s)
  show ?case
  proof (cases "first_match s")
    case None
    then show ?thesis by (simp add: tokens_no_match)
  next
    case (Some m)
    then obtain front inner rest where m: "first_match s = Some (front, inner, rest)"
      by (cases m) auto
    have "concat (map token_text (tokens s))
        = front @ lit ''**'' @ inner @ lit ''**'' @ concat (map token_text (tokens rest))"
      by (simp add: tokens_match [OF m])
    also have "\<dots> = front @ lit ''**'' @ inner @ lit ''**'' @ rest"
      using "1.IH" [OF m refl refl] by simp
    also have "\<dots> = s"
      using first_match_parts [OF m] by simp
    finally show ?thesis .
  qed
qed

text \<open>A captured part is a fragment between its two delimiters, and is rendered bold without them.\<close>

lemma captured_delimited:
  "Captured m \<in> set (tokens s) \<Longrightarrow> \<exists>inner. m = lit ''**'' @ inner @ lit ''**''"
proof (induction s rule: tokens.induct)
  case (1 s)
  show ?case
  proof (cases "first_match s")
    case None
    with "1.prems" show ?thesis by (simp add: tokens_no_match)
  next
    case (Some t)
    then obtain front inner rest where t: "first_match s = Some (front, inner, rest)"
      by (cases t) auto
    from "1.prems" have "m = lit ''**'' @ inner @ lit ''**'' \<or> Captured m \<in> set (tokens rest)"
      by (simp add: tokens_match [OF t])
    with "1.IH" [OF t refl refl] show ?thesis by blast
  qed
qed

lemma slice_delimited: "slice_2_m2 (lit ''**'' @ inner @ lit ''**'') = inner"
  by (simp add: slice_2_m2_def lit_def)

lemma render_delimited: "render_part (lit ''**'' @ inner @ lit ''**'') = BoldSpan inner"
proof -
  have "prefix (lit ''**'') (lit ''**'' @ inner @ lit ''**'')" by simp
  moreover have "suffix (lit ''**'') (lit ''**'' @ inner @ lit ''**'')"
    by (simp add: suffix_def)
  ultimately show ?thesis
    by (simp only: render_part_def startsWith_def endsWith_def slice_delimited if_True simp_thms)
qed

text \<open>
  The text that is rendered, when the parts between the matches are rendered as they are.
\<close>

lemma rendered_tokens:
  assumes "\<forall>p. Between p \<in> set (tokens s) \<longrightarrow>
             \<not> (startsWith p (lit ''**'') \<and> endsWith p (lit ''**''))"
  shows "concat (map (\<lambda>t. rich_text (render_part (token_text t))) (tokens s)) = strip_delimiters s"
  using assms
proof (induction s rule: tokens.induct)
  case (1 s)
  show ?case
  proof (cases "first_match s")
    case None
    with "1.prems" have "render_part s = PlainText s"
      by (simp add: tokens_no_match render_part_def)
    with None show ?thesis
      by (simp add: tokens_no_match strip_delimiters_no_match)
  next
    case (Some t)
    then obtain front inner rest where t: "first_match s = Some (front, inner, rest)"
      by (cases t) auto
    note unfold = tokens_match [OF t]
    from "1.prems" have "render_part front = PlainText front"
      by (simp add: unfold render_part_def)
    moreover from "1.prems" have "\<forall>p. Between p \<in> set (tokens rest) \<longrightarrow>
        \<not> (startsWith p (lit ''**'') \<and> endsWith p (lit ''**''))"
      by (simp add: unfold)
    with "1.IH" [OF t refl refl]
    have "concat (map (\<lambda>t. rich_text (render_part (token_text t))) (tokens rest)) = strip_delimiters rest"
      by simp
    ultimately show ?thesis
      by (simp add: unfold render_delimited strip_delimiters_match [OF t])
  qed
qed

section \<open>Claims about the cleaning step\<close>

text \<open>
  C1 (as stated): for every response text \<open>t\<close>, the cleaning step applied to \<open>t\<close> wrapped in
  code-fence markers yields the same string as applied to \<open>t\<close> alone. This fails when the
  opening marker is the bare fence and the text itself begins with \<open>json\<close>: marker and text
  then spell the other marker, and the cleaning step removes the beginning of the text.
  The response \<open>```json{}```\<close> is cleaned to \<open>{}\<close>, the text \<open>json{}\<close> inside the fences is
  cleaned to itself.
\<close>

theorem cleanJson_bare_fence_counterexample:
  "cleanJson (fenced (lit ''```'') (lit ''json{}'')) = lit ''{}'' \<and>
   cleanJson (lit ''json{}'') = lit ''json{}'' \<and>
   cleanJson (fenced (lit ''```'') (lit ''json{}'')) \<noteq> cleanJson (lit ''json{}'')"
  by (simp add: cleanJson_def fenced_def lit_def trim_def trimmable_def
      is_white_space_def is_line_terminator_def)

text \<open>
  C1 (amended): for every response text \<open>t\<close>, cleaning \<open>t\<close> wrapped between the opening marker
  \<open>```json\<close> and the closing marker \<open>```\<close> yields the same string, and hence the same parse
  result, as cleaning \<open>t\<close> alone; the same holds for the opening marker \<open>```\<close> whenever \<open>t\<close>
  does not begin with \<open>json\<close>, \<open>`json\<close> or \<open>``json\<close>.
\<close>

theorem cleanJson_fenced:
  assumes "opener = lit ''```json'' \<or>
           opener = lit ''```'' \<and> \<not> prefix (lit ''json'') t \<and>
             \<not> prefix (lit ''`json'') t \<and> \<not> prefix (lit ''``json'') t"
  shows "cleanJson (fenced opener t) = cleanJson t \<and>
         JSON_parse engine (cleanJson (fenced opener t)) = JSON_parse engine (cleanJson t)"
proof -
  from assms have "cleanJson (fenced opener t) = cleanJson t"
  proof
    assume "opener = lit ''```json''"
    then show ?thesis by (simp only: cleanJson_json_fence)
  next
    assume "opener = lit ''```'' \<and> \<not> prefix (lit ''json'') t \<and>
             \<not> prefix (lit ''`json'') t \<and> \<not> prefix (lit ''``json'') t"
    then show ?thesis by (blast intro: cleanJson_plain_fence)
  qed
  then show ?thesis by simp
qed

theorem cleanJson_fenced_witness:
  "(lit ''```'' = lit ''```json'' \<or>
    lit ''```'' = lit ''```'' \<and> \<not> prefix (lit ''json'') (lit ''{}'') \<and>
      \<not> prefix (lit ''`json'') (lit ''{}'') \<and> \<not> prefix (lit ''``json'') (lit ''{}'')) \<and>
   cleanJson (fenced (lit ''```'') (lit ''{}'')) = cleanJson (lit ''{}'') \<and>
   cleanJson (lit ''{}'') = lit ''{}''"
proof -
  have h: "lit ''```'' = lit ''```json'' \<or>
    lit ''```'' = lit ''```'' \<and> \<not> prefix (lit ''json'') (lit ''{}'') \<and>
      \<not> prefix (lit ''`json'') (lit ''{}'') \<and> \<not> prefix (lit ''``json'') (lit ''{}'')"
    by (simp add: lit_def)
  have "cleanJson (fenced (lit ''```'') (lit ''{}'')) = cleanJson (lit ''{}'')"
    using cleanJson_fenced [OF h] by (rule conjunct1)
  moreover have "cleanJson (lit ''{}'') = lit ''{}''"
    by (simp add: cleanJson_def lit_def trim_def trimmable_def
        is_white_space_def is_line_terminator_def)
  ultimately show ?thesis using h by simp
qed

section \<open>Claims about the access gate\<close>

text \<open>
  C2: for every submitted input, if it equals the configured password the login handler calls
  the unlock callback (once) and the main view is shown; if it is any other string the callback
  is not called, the error flag is set, the error indicator is shown, and the state of \<open>App\<close>,
  with its authenticated flag, is as before.
\<close>

theorem handleSubmit_gate:
  "(pass ls = APP_PASSWORD env \<longrightarrow>
      count_list (handleSubmit env ls) OnLogin = 1 \<and>
      isAuthenticated (snd (submit env (ls, s))) \<and>
      App_screen (snd (submit env (ls, s))) = MainView) \<and>
   (pass ls \<noteq> APP_PASSWORD env \<longrightarrow>
      OnLogin \<notin> set (handleSubmit env ls) \<and>
      error (fst (submit env (ls, s))) \<and>
      error_indicator (fst (submit env (ls, s))) \<and>
      snd (submit env (ls, s)) = s \<and>
      (\<not> isAuthenticated s \<longrightarrow> App_screen (snd (submit env (ls, s))) = LoginScreen))"
  by (simp add: submit_match submit_mismatch handleSubmit_def App_screen_def error_indicator_def)

theorem handleSubmit_gate_witness:
  "pass (initial_login\<lparr>pass := lit ''secret''\<rparr>) = APP_PASSWORD (Some (lit ''secret'')) \<and>
   App_screen (snd (submit (Some (lit ''secret'')) (initial_login\<lparr>pass := lit ''secret''\<rparr>, initial_app)))
     = MainView \<and>
   pass (initial_login\<lparr>pass := lit ''guess''\<rparr>) \<noteq> APP_PASSWORD (Some (lit ''secret'')) \<and>
   \<not> isAuthenticated initial_app \<and>
   error (fst (submit (Some (lit ''secret'')) (initial_login\<lparr>pass := lit ''guess''\<rparr>, initial_app))) \<and>
   App_screen (snd (submit (Some (lit ''secret'')) (initial_login\<lparr>pass := lit ''guess''\<rparr>, initial_app)))
     = LoginScreen"
proof -
  have yes: "pass (initial_login\<lparr>pass := lit ''secret''\<rparr>) = APP_PASSWORD (Some (lit ''secret''))"
    by (simp add: APP_PASSWORD_def lit_def)
  have no: "pass (initial_login\<lparr>pass := lit ''guess''\<rparr>) \<noteq> APP_PASSWORD (Some (lit ''secret''))"
    by (simp add: APP_PASSWORD_def lit_def)
  have out: "\<not> isAuthenticated initial_app"
    by (simp add: initial_app_def)
  from yes no out
    handleSubmit_gate [of "initial_login\<lparr>pass := lit ''secret''\<rparr>" "Some (lit ''secret'')" initial_app]
    handleSubmit_gate [of "initial_login\<lparr>pass := lit ''guess''\<rparr>" "Some (lit ''secret'')" initial_app]
  show ?thesis by blast
qed

text \<open>
  C8: when the password variable of the environment is not set or is empty, the configured
  password is \<open>AmbujAI\<close>: submitting \<open>AmbujAI\<close> unlocks the main view, and every other string
  is rejected (no call of the unlock callback, the error flag set, the state of \<open>App\<close> as before).
\<close>

theorem default_password_gate:
  assumes "env = None \<or> env = Some []"
  shows "APP_PASSWORD env = lit ''AmbujAI'' \<and>
         (pass ls = lit ''AmbujAI'' \<longrightarrow>
            OnLogin \<in> set (handleSubmit env ls) \<and>
            App_screen (snd (submit env (ls, s))) = MainView) \<and>
         (pass ls \<noteq> lit ''AmbujAI'' \<longrightarrow>
            OnLogin \<notin> set (handleSubmit env ls) \<and>
            error (fst (submit env (ls, s))) \<and>
            snd (submit env (ls, s)) = s)"
  using assms
  by (auto simp: APP_PASSWORD_default submit_match submit_mismatch handleSubmit_def App_screen_def)

theorem default_password_gate_witness:
  "((None :: jsstring option) = None \<or> None = Some ([] :: jsstring)) \<and>
   APP_PASSWORD None = lit ''AmbujAI'' \<and>
   App_screen (snd (submit None (initial_login\<lparr>pass := lit ''AmbujAI''\<rparr>, initial_app))) = MainView \<and>
   lit ''ambujai'' \<noteq> lit ''AmbujAI'' \<and>
   error (fst (submit None (initial_login\<lparr>pass := lit ''ambujai''\<rparr>, initial_app))) \<and>
   snd (submit None (initial_login\<lparr>pass := lit ''ambujai''\<rparr>, initial_app)) = initial_app"
proof -
  have h: "(None :: jsstring option) = None \<or> None = Some ([] :: jsstring)" by simp
  have ne: "lit ''ambujai'' \<noteq> lit ''AmbujAI''" by (simp add: lit_def)
  from h ne
    default_password_gate [OF h, of "initial_login\<lparr>pass := lit ''AmbujAI''\<rparr>" initial_app]
    default_password_gate [OF h, of "initial_login\<lparr>pass := lit ''ambujai''\<rparr>" initial_app]
  show ?thesis by simp
qed

section \<open>Claims about the AI narrator client\<close>




text \<open>
  C10: every call of \<open>generateAIContent\<close> starts by setting the loading flag and clearing the
  stored result; when the call returns the loading flag is false, whether the \<open>try\<close> block has
  thrown or not; and whenever it has thrown, in particular for each failure that the
  specification names, the stored result is \<open>null\<close>.
\<close>

theorem generateAIContent_loading:
  "take 2 (generateAIContent engine network prompt img) = [SetLoading True, SetAiData None] \<and>
   loading (run (take 2 (generateAIContent engine network prompt img)) s) \<and>
   aiData (run (take 2 (generateAIContent engine network prompt img)) s) = None \<and>
   \<not> loading (run (generateAIContent engine network prompt img) s) \<and>
   (snd (try_block engine (network (build_request prompt img))) \<noteq> None \<longrightarrow>
      aiData (run (generateAIContent engine network prompt img) s) = None) \<and>
   (http_failure (network (build_request prompt img)) \<or>
    empty_text (network (build_request prompt img)) \<or>
    malformed_json engine (network (build_request prompt img)) \<longrightarrow>
      aiData (run (generateAIContent engine network prompt img) s) = None)"
proof -
  have start: "take 2 (generateAIContent engine network prompt img) = [SetLoading True, SetAiData None]"
    by (simp add: generateAIContent_def)
  have thrown: "aiData (run (generateAIContent engine network prompt img) s) = None"
    if "snd (try_block engine (network (build_request prompt img))) \<noteq> None"
    using that generateAIContent_thrown_data [of engine network prompt img] by auto
  have named: "aiData (run (generateAIContent engine network prompt img) s) = None"
    if "http_failure (network (build_request prompt img)) \<or>
        empty_text (network (build_request prompt img)) \<or>
        malformed_json engine (network (build_request prompt img))"
    using that thrown named_failures_throw by blast
  show ?thesis
    using thrown named
    by (simp add: start run_Cons run_Nil generateAIContent_final_loading)
qed

text \<open>
  A call that finds data of an earlier call and a model that answers with text that is not
  JSON: afterwards the flag is false and the stored result is \<open>null\<close>.
\<close>

theorem generateAIContent_loading_witness:
  "malformed_json sample_engine
     (FetchResolved \<lparr>status = 200, statusText = lit ''OK'',
        body = Inr (JObj [(lit ''candidates'', JArr [JObj [(lit ''content'',
          JObj [(lit ''parts'', JArr [JObj [(lit ''text'', JStr (lit ''I cannot say.''))]])])]])])\<rparr>) \<and>
   \<not> loading (run (generateAIContent sample_engine
     (\<lambda>request. FetchResolved \<lparr>status = 200, statusText = lit ''OK'',
        body = Inr (JObj [(lit ''candidates'', JArr [JObj [(lit ''content'',
          JObj [(lit ''parts'', JArr [JObj [(lit ''text'', JStr (lit ''I cannot say.''))]])])]])])\<rparr>)
     (JStr (lit ''Delhi'')) None) (initial_app\<lparr>aiData := Some (unrecognised None)\<rparr>)) \<and>
   aiData (run (generateAIContent sample_engine
     (\<lambda>request. FetchResolved \<lparr>status = 200, statusText = lit ''OK'',
        body = Inr (JObj [(lit ''candidates'', JArr [JObj [(lit ''content'',
          JObj [(lit ''parts'', JArr [JObj [(lit ''text'', JStr (lit ''I cannot say.''))]])])]])])\<rparr>)
     (JStr (lit ''Delhi'')) None) (initial_app\<lparr>aiData := Some (unrecognised None)\<rparr>)) = None"
proof -
  let ?o = "FetchResolved \<lparr>status = 200, statusText = lit ''OK'',
        body = Inr (JObj [(lit ''candidates'', JArr [JObj [(lit ''content'',
          JObj [(lit ''parts'', JArr [JObj [(lit ''text'', JStr (lit ''I cannot say.''))]])])]])])\<rparr>"
  have clean: "cleanJson (lit ''I cannot say.'') = lit ''I cannot say.''"
    by (simp add: cleanJson_def lit_def trim_def trimmable_def is_white_space_def
        is_line_terminator_def)
  have failure: "malformed_json sample_engine ?o"
    by (simp add: malformed_json_def extracted_text_def ok_def candidate_text_def clean
        sample_engine_def) (simp add: lit_def)
  then have "malformed_json sample_engine ((\<lambda>request. ?o) (build_request (JStr (lit ''Delhi'')) None))"
    by simp
  with generateAIContent_loading [of sample_engine "\<lambda>request. ?o" "JStr (lit ''Delhi'')" None
      "initial_app\<lparr>aiData := Some (unrecognised None)\<rparr>"] failure
  show ?thesis by blast
qed

section \<open>Claims about the geocoder client and the handlers\<close>

text \<open>
  C5: when the request to the geocoding service fails, \<open>fetchAddress\<close> returns the fixed text
  \<open>Selected Location\<close> (it has caught the error), and after \<open>handleMapClick\<close> this text is the
  label under \<open>Target\<close>.
\<close>

theorem fetchAddress_failure:
  "fetchAddress AxiosRejected = JStr (lit ''Selected Location'') \<and>
   (geocoder point = AxiosRejected \<longrightarrow>
      Target_label (run (handleMapClick engine geocoder network point) s)
        = JStr (lit ''Selected Location''))"
proof -
  have "address (run (generateAIContent engine network a None) t) = address t" for a t
    using run_ai_effects [OF generateAIContent_ai_effects] by blast
  then show ?thesis
    by (simp add: handleMapClick_def Target_label_def run_Cons Let_def)
qed

theorem fetchAddress_failure_witness:
  "(\<lambda>point. AxiosRejected) \<lparr>lat = 28.6139, lng = 77.2090\<rparr> = AxiosRejected \<and>
   Target_label (run (handleMapClick sample_engine (\<lambda>point. AxiosRejected)
       (\<lambda>request. FetchRejected (lit ''Failed to fetch'')) \<lparr>lat = 28.6139, lng = 77.2090\<rparr>) initial_app)
     = JStr (lit ''Selected Location'')"
  using fetchAddress_failure [of "\<lambda>point. AxiosRejected" "\<lparr>lat = 28.6139, lng = 77.2090\<rparr>"
      sample_engine "\<lambda>request. FetchRejected (lit ''Failed to fetch'')" initial_app]
  by simp

text \<open>
  C6: when the geocoding service answers with a body whose display name is a string that is
  not empty, \<open>fetchAddress\<close> returns exactly this name, and after \<open>handleMapClick\<close> it is the
  label under \<open>Target\<close>.
\<close>

theorem fetchAddress_display_name:
  assumes "property data (lit ''display_name'') = Some (JStr name)" and "name \<noteq> []"
  shows "fetchAddress (AxiosResolved data) = JStr name \<and>
         (geocoder point = AxiosResolved data \<longrightarrow>
            Target_label (run (handleMapClick engine geocoder network point) s) = JStr name)"
proof -
  from assms(1) obtain kvs where "data = JObj kvs" by (cases data) simp_all
  with assms have found: "fetchAddress (AxiosResolved data) = JStr name" by simp
  have "address (run (generateAIContent engine network a None) t) = address t" for a t
    using run_ai_effects [OF generateAIContent_ai_effects] by blast
  with found show ?thesis
    by (simp add: handleMapClick_def Target_label_def run_Cons Let_def)
qed

theorem fetchAddress_display_name_witness:
  "property (JObj [(lit ''place_id'', JNum 42), (lit ''display_name'', JStr (lit ''India Gate, New Delhi''))])
     (lit ''display_name'') = Some (JStr (lit ''India Gate, New Delhi'')) \<and>
   lit ''India Gate, New Delhi'' \<noteq> [] \<and>
   Target_label (run (handleMapClick sample_engine
       (\<lambda>point. AxiosResolved (JObj [(lit ''place_id'', JNum 42),
          (lit ''display_name'', JStr (lit ''India Gate, New Delhi''))]))
       (\<lambda>request. FetchRejected (lit ''Failed to fetch'')) \<lparr>lat = 28.6139, lng = 77.2090\<rparr>) initial_app)
     = JStr (lit ''India Gate, New Delhi'')"
proof -
  let ?data = "JObj [(lit ''place_id'', JNum 42), (lit ''display_name'', JStr (lit ''India Gate, New Delhi''))]"
  have h1: "property ?data (lit ''display_name'') = Some (JStr (lit ''India Gate, New Delhi''))"
    by (simp add: lit_def)
  have h2: "lit ''India Gate, New Delhi'' \<noteq> []"
    by (simp add: lit_def)
  from fetchAddress_display_name [OF h1 h2, of "\<lambda>point. AxiosResolved ?data"
      "\<lparr>lat = 28.6139, lng = 77.2090\<rparr>" sample_engine
      "\<lambda>request. FetchRejected (lit ''Failed to fetch'')" initial_app] h1 h2
  show ?thesis by simp
qed

text \<open>
  C7: when the file that was chosen is read to a data URL with a base64 payload that is not
  empty, \<open>handleImageUpload\<close> stores the data URL as preview image and \<open>null\<close> as position, so
  after the handler the thumbnail is shown and the marker is not.
\<close>

theorem handleImageUpload_preview:
  assumes "base64_of (Some url) = Some base64" and "base64 \<noteq> []"
  shows "previewImage (run (handleImageUpload engine network (FileRead (Some url))) s) = Some url \<and>
         position (run (handleImageUpload engine network (FileRead (Some url))) s) = None \<and>
         preview_shown (run (handleImageUpload engine network (FileRead (Some url))) s) \<and>
         \<not> marker_shown (run (handleImageUpload engine network (FileRead (Some url))) s)"
proof -
  from assms(1) have "url \<noteq> []" by (auto simp: base64_of_def)
  moreover have "previewImage (run (generateAIContent engine network a (Some base64)) t) = previewImage t \<and>
      position (run (generateAIContent engine network a (Some base64)) t) = position t" for a t
    using run_ai_effects [OF generateAIContent_ai_effects] by blast
  ultimately show ?thesis
    using assms
    by (simp add: handleImageUpload_def run_Cons preview_shown_def marker_shown_def)
qed

theorem handleImageUpload_preview_witness:
  "base64_of (Some (lit ''data:image/jpeg;base64,/9j/4AAQ'')) = Some (lit ''/9j/4AAQ'') \<and>
   lit ''/9j/4AAQ'' \<noteq> [] \<and>
   preview_shown (run (handleImageUpload sample_engine (\<lambda>request. FetchRejected (lit ''Failed to fetch''))
      (FileRead (Some (lit ''data:image/jpeg;base64,/9j/4AAQ''))))
      (initial_app\<lparr>position := Some \<lparr>lat = 28.6139, lng = 77.2090\<rparr>\<rparr>)) \<and>
   \<not> marker_shown (run (handleImageUpload sample_engine (\<lambda>request. FetchRejected (lit ''Failed to fetch''))
      (FileRead (Some (lit ''data:image/jpeg;base64,/9j/4AAQ''))))
      (initial_app\<lparr>position := Some \<lparr>lat = 28.6139, lng = 77.2090\<rparr>\<rparr>))"
proof -
  have h1: "base64_of (Some (lit ''data:image/jpeg;base64,/9j/4AAQ'')) = Some (lit ''/9j/4AAQ'')"
    by (simp add: base64_of_def lit_def)
  have h2: "lit ''/9j/4AAQ'' \<noteq> []"
    by (simp add: lit_def)
  from handleImageUpload_preview [OF h1 h2, of sample_engine
      "\<lambda>request. FetchRejected (lit ''Failed to fetch'')"
      "initial_app\<lparr>position := Some \<lparr>lat = 28.6139, lng = 77.2090\<rparr>\<rparr>"] h1 h2
  show ?thesis by simp
qed

section \<open>Claims about the result card and the rich text renderer\<close>

text \<open>
  C4 (as stated): for a stored response whose \<open>isLocation\<close> is false, the failure panel shows
  the \<open>fallbackMessage\<close> of the response when it is present and the default message when it
  is absent. This fails for a fallback message that is present and empty: the panel shows the
  default message, not the empty message of the response.
\<close>

theorem ResultCard_empty_fallback_counterexample:
  "\<not> isLocation (unrecognised (Some [])) \<and>
   fallbackMessage (unrecognised (Some [])) = Some [] \<and>
   ResultCard (Some (unrecognised (Some []))) False = AnalysisFailed default_fallback \<and>
   ResultCard (Some (unrecognised (Some []))) False \<noteq> AnalysisFailed []"
  by (simp add: unrecognised_def ResultCard_def default_fallback_def lit_def)

text \<open>
  C4 (amended): for every stored response whose \<open>isLocation\<close> is false, \<open>ResultCard\<close>, when not
  loading, renders the failure panel, with the \<open>fallbackMessage\<close> of the response when it is
  present and not empty, and with the default message when it is absent or empty; it renders
  none of the narrative panels.
\<close>

theorem ResultCard_not_location:
  assumes "\<not> isLocation d"
  shows "(\<forall>message. fallbackMessage d = Some message \<and> message \<noteq> [] \<longrightarrow>
            ResultCard (Some d) False = AnalysisFailed message) \<and>
         (fallbackMessage d = None \<or> fallbackMessage d = Some [] \<longrightarrow>
            ResultCard (Some d) False = AnalysisFailed default_fallback) \<and>
         failure_panel (ResultCard (Some d) False) \<noteq> None \<and>
         shown_panels (ResultCard (Some d) False) = [] \<and>
         default_fallback = lit ''This doesn't appear to be a recognizable location. Please try again.''"
  using assms
  by (auto simp: ResultCard_def failure_panel_def shown_panels_def default_fallback_def)

theorem ResultCard_not_location_witness:
  "\<not> isLocation (unrecognised (Some (lit ''This is a photo of a cat.''))) \<and>
   ResultCard (Some (unrecognised (Some (lit ''This is a photo of a cat.'')))) False
     = AnalysisFailed (lit ''This is a photo of a cat.'') \<and>
   \<not> isLocation (unrecognised None) \<and>
   ResultCard (Some (unrecognised None)) False = AnalysisFailed default_fallback"
proof -
  have h1: "\<not> isLocation (unrecognised (Some (lit ''This is a photo of a cat.'')))"
    by (simp add: unrecognised_def)
  have h2: "\<not> isLocation (unrecognised None)"
    by (simp add: unrecognised_def)
  have m: "fallbackMessage (unrecognised (Some (lit ''This is a photo of a cat.'')))
      = Some (lit ''This is a photo of a cat.'') \<and> lit ''This is a photo of a cat.'' \<noteq> []"
    by (simp add: unrecognised_def lit_def)
  have n: "fallbackMessage (unrecognised None) = None"
    by (simp add: unrecognised_def)
  from ResultCard_not_location [OF h1] ResultCard_not_location [OF h2] h1 h2 m n
  show ?thesis by blast
qed

text \<open>
  C9 (as stated): the concatenation of all rendered text equals the content with every
  delimiter of a matched bold fragment removed. This fails for the content \<open>***\<close>: the pattern
  needs four asterisks and matches nowhere, so there is no matched fragment and the only part
  is the content itself; the part starts and ends with two asterisks, so it is rendered bold,
  and \<open>slice(2, -2)\<close> leaves nothing of it.
\<close>

theorem RichText_three_asterisks_counterexample:
  "tokens (lit ''***'') = [Between (lit ''***'')] \<and>
   strip_delimiters (lit ''***'') = lit ''***'' \<and>
   RichText (lit ''***'') = [BoldSpan []] \<and>
   rendered_text (lit ''***'') = [] \<and>
   rendered_text (lit ''***'') \<noteq> strip_delimiters (lit ''***'')"
proof -
  have none: "first_match (lit ''***'') = None"
    by (simp add: lit_def match_bold_def is_line_terminator_def)
  have parts: "tokens (lit ''***'') = [Between (lit ''***'')]"
    using none by (rule tokens_no_match)
  have same: "strip_delimiters (lit ''***'') = lit ''***''"
    using none by (rule strip_delimiters_no_match)
  have bold: "RichText (lit ''***'') = [BoldSpan []]"
    by (simp add: RichText_def split_bold_def parts render_part_def startsWith_def endsWith_def
        slice_2_m2_def) (simp add: lit_def suffix_def)
  then have "rendered_text (lit ''***'') = []"
    by (simp add: rendered_text_def)
  moreover have "lit ''***'' \<noteq> []" by (simp add: lit_def)
  ultimately show ?thesis using parts same bold by simp
qed

text \<open>
  C9 (amended): for every content string, the parts of the split put together are the content;
  a part is rendered bold, as \<open>part.slice(2, -2)\<close>, exactly when it starts and ends with two
  asterisks, and as it is otherwise; every matched fragment is rendered bold with exactly its
  two delimiters removed; and when no part between the matches itself starts and ends with two
  asterisks, the concatenation of all rendered text is the content with the delimiters of the
  matched fragments removed.
\<close>

theorem RichText_parts:
  "concat (split_bold content) = content \<and>
   RichText content =
     map (\<lambda>part. if startsWith part (lit ''**'') \<and> endsWith part (lit ''**'')
                  then BoldSpan (slice_2_m2 part) else PlainText part) (split_bold content) \<and>
   (\<forall>m. Captured m \<in> set (tokens content) \<longrightarrow>
      render_part m = BoldSpan (slice_2_m2 m) \<and> m = lit ''**'' @ slice_2_m2 m @ lit ''**'') \<and>
   ((\<forall>p. Between p \<in> set (tokens content) \<longrightarrow>
        \<not> (startsWith p (lit ''**'') \<and> endsWith p (lit ''**''))) \<longrightarrow>
      rendered_text content = strip_delimiters content)"
proof (intro conjI allI impI)
  show "concat (split_bold content) = content"
    by (simp add: split_bold_def concat_tokens)
  show "RichText content =
     map (\<lambda>part. if startsWith part (lit ''**'') \<and> endsWith part (lit ''**'')
                  then BoldSpan (slice_2_m2 part) else PlainText part) (split_bold content)"
    by (simp add: RichText_def render_part_def)
next
  fix m
  assume "Captured m \<in> set (tokens content)"
  then obtain inner where m: "m = lit ''**'' @ inner @ lit ''**''"
    using captured_delimited by blast
  show "render_part m = BoldSpan (slice_2_m2 m)"
    by (simp only: m render_delimited slice_delimited)
  show "m = lit ''**'' @ slice_2_m2 m @ lit ''**''"
    by (simp only: m slice_delimited)
next
  assume "\<forall>p. Between p \<in> set (tokens content) \<longrightarrow>
        \<not> (startsWith p (lit ''**'') \<and> endsWith p (lit ''**''))"
  then have "concat (map (\<lambda>t. rich_text (render_part (token_text t))) (tokens content))
      = strip_delimiters content"
    by (rule rendered_tokens)
  then show "rendered_text content = strip_delimiters content"
    by (simp add: rendered_text_def RichText_def split_bold_def comp_def)
qed

theorem RichText_parts_witness:
  "tokens (lit ''The **Taj** stands'') =
     [Between (lit ''The ''), Captured (lit ''**Taj**''), Between (lit '' stands'')] \<and>
   RichText (lit ''The **Taj** stands'') =
     [PlainText (lit ''The ''), BoldSpan (lit ''Taj''), PlainText (lit '' stands'')] \<and>
   rendered_text (lit ''The **Taj** stands'') = lit ''The Taj stands'' \<and>
   strip_delimiters (lit ''The **Taj** stands'') = lit ''The Taj stands''"
proof -
  have first: "first_match (lit ''The **Taj** stands'') = Some (lit ''The '', lit ''Taj'', lit '' stands'')"
    by (simp add: lit_def match_bold_def is_line_terminator_def)
  have second: "first_match (lit '' stands'') = None"
    by (simp add: lit_def match_bold_def)
  have parts: "tokens (lit ''The **Taj** stands'') =
     [Between (lit ''The ''), Captured (lit ''**Taj**''), Between (lit '' stands'')]"
    by (simp add: tokens_match [OF first] tokens_no_match [OF second]) (simp add: lit_def)
  have plain: "\<forall>p. Between p \<in> set (tokens (lit ''The **Taj** stands'')) \<longrightarrow>
      \<not> (startsWith p (lit ''**'') \<and> endsWith p (lit ''**''))"
    by (simp add: parts startsWith_def) (simp add: lit_def)
  have stripped: "strip_delimiters (lit ''The **Taj** stands'') = lit ''The Taj stands''"
    by (simp add: strip_delimiters_match [OF first] strip_delimiters_no_match [OF second])
      (simp add: lit_def)
  from RichText_parts [of "lit ''The **Taj** stands''"] plain
  have "rendered_text (lit ''The **Taj** stands'') = strip_delimiters (lit ''The **Taj** stands'')"
    by blast
  moreover have "RichText (lit ''The **Taj** stands'') =
     [PlainText (lit ''The ''), BoldSpan (lit ''Taj''), PlainText (lit '' stands'')]"
    by (simp add: RichText_def split_bold_def parts render_part_def startsWith_def endsWith_def
        slice_2_m2_def) (simp add: lit_def suffix_def)
  ultimately show ?thesis using parts stripped by simp
qed

end
